theory Spec2Isabelle
  imports Main "HOL-Library.Word"
begin

section \<open>Data model of module.c\<close>

text \<open>
  The C struct \<open>i2c_controller\<close>: \<open>int irq\<close> and \<open>atomic_t isr_count\<close>. Both are
  32-bit machine integers; \<open>sint\<close> reads them the way \<open>%d\<close> prints them.
\<close>

record i2c_controller =
  irq :: "32 word"
  isr_count :: "32 word"

text \<open>
  The fields of the kernel's \<open>struct pci_dev\<close> that the module reads:
  \<open>unsigned short vendor\<close>, \<open>unsigned short device\<close>, \<open>unsigned int irq\<close>
  (the last one is named \<open>pci_irq\<close> here, \<open>irq\<close> being the controller's field).
\<close>

record pci_dev =
  vendor :: "16 word"
  device :: "16 word"
  pci_irq :: "32 word"

text \<open>
  The module's static storage together with the part of the kernel it acts on.
  A pointer \<open>&i2c_controller_list[i]\<close> (the \<open>dev_id\<close> cookie of an interrupt
  registration and the context of the handler) is the index \<open>i\<close>.
  \<^item> \<open>i2c_controller_list\<close>, \<open>i2c_controller_count\<close>: the two statics;
  \<^item> \<open>oob_write\<close>: set by a store outside \<open>i2c_controller_list[0..15]\<close>;
  \<^item> \<open>irq_actions\<close>: the registrations (line, cookie) this module holds;
  \<^item> \<open>irq_free_calls\<close>: every call of \<open>free_irq\<close>, in order;
  \<^item> \<open>irq_warned\<close>: the calls of \<open>free_irq\<close> that found no such registration;
  \<^item> \<open>proc_entry\<close>: whether the /proc entry exists.
\<close>

record kstate =
  i2c_controller_list :: "i2c_controller list"
  i2c_controller_count :: nat
  oob_write :: bool
  irq_actions :: "(32 word \<times> nat) list"
  irq_free_calls :: "(32 word \<times> nat) list"
  irq_warned :: "(32 word \<times> nat) list"
  proc_entry :: bool

text \<open>
  What the platform answers during one load: the PCI device list in bus order, whether
  \<open>proc_create_single\<close> returns NULL, and the errno with which \<open>request_irq\<close>
  refuses a line and cookie (0: it registers).
\<close>

record platform =
  pci_devices :: "pci_dev list"
  proc_create_fails :: bool
  request_irq_errno :: "32 word \<Rightarrow> nat \<Rightarrow> nat"

datatype irqreturn_t = IRQ_NONE | IRQ_HANDLED | IRQ_WAKE_THREAD

definition I2C_CONTROLLER_MAX :: nat where
  "I2C_CONTROLLER_MAX = 16"

text \<open>
  Modelled from the spec: the fixed target vendor and the error numbers come from the
  kernel headers (\<open>linux/pci_ids.h\<close>, \<open>errno.h\<close>), which module.c includes; the values
  are the ones of Linux. The theorems below use of them only that the error numbers
  are positive.
\<close>

definition PCI_VENDOR_ID_INTEL :: "16 word" where
  "PCI_VENDOR_ID_INTEL = 0x8086"

definition ENOBUFS :: int where
  "ENOBUFS = 105"

definition ENOENT :: int where
  "ENOENT = 2"

text \<open>Static storage is zero-initialised when the module is loaded; nothing is held.\<close>

definition init_state :: kstate where
  "init_state =
     \<lparr> i2c_controller_list = replicate I2C_CONTROLLER_MAX \<lparr> irq = 0, isr_count = 0 \<rparr>,
       i2c_controller_count = 0,
       oob_write = False,
       irq_actions = [],
       irq_free_calls = [],
       irq_warned = [],
       proc_entry = False \<rparr>"

section \<open>The kernel services the module calls\<close>

text \<open>
  Modelled from the spec: the device catalog, the interrupt registration service and the
  report endpoint are external collaborators (section 6 of the specification); module.c
  only calls them. Each is modelled at its interface.
\<close>

text \<open>
  \<open>pci_get_device(vendor, PCI_ANY_ID, from)\<close>: the next device of that vendor. The
  cursor is the rest of the device list, starting at the device found; NULL is \<open>[]\<close>.
\<close>

definition pci_get_device :: "16 word \<Rightarrow> pci_dev list \<Rightarrow> pci_dev list" where
  "pci_get_device v ds = dropWhile (\<lambda>d. vendor d \<noteq> v) ds"

text \<open>
  \<open>request_irq(irq, handler, IRQF_SHARED, name, dev_id)\<close>: 0 and the registration is
  held, or a negative errno and nothing changes.
\<close>

definition request_irq :: "platform \<Rightarrow> 32 word \<Rightarrow> nat \<Rightarrow> kstate \<Rightarrow> int \<times> kstate" where
  "request_irq e l dev_id s =
     (if request_irq_errno e l dev_id = 0
      then (0, s\<lparr> irq_actions := irq_actions s @ [(l, dev_id)] \<rparr>)
      else (- int (request_irq_errno e l dev_id), s))"

text \<open>
  \<open>free_irq(irq, dev_id)\<close>: removes the registration with that cookie from the line;
  when there is none the kernel warns ("Trying to free already-free IRQ") and returns.
\<close>

definition free_irq :: "32 word \<Rightarrow> nat \<Rightarrow> kstate \<Rightarrow> kstate" where
  "free_irq l dev_id s =
     (if (l, dev_id) \<in> set (irq_actions s)
      then s\<lparr> irq_actions := remove1 (l, dev_id) (irq_actions s),
              irq_free_calls := irq_free_calls s @ [(l, dev_id)] \<rparr>
      else s\<lparr> irq_free_calls := irq_free_calls s @ [(l, dev_id)],
              irq_warned := irq_warned s @ [(l, dev_id)] \<rparr>)"

definition proc_create_single :: "platform \<Rightarrow> kstate \<Rightarrow> bool \<times> kstate" where
  "proc_create_single e s =
     (if proc_create_fails e then (False, s) else (True, s\<lparr> proc_entry := True \<rparr>))"

definition remove_proc_entry :: "kstate \<Rightarrow> kstate" where
  "remove_proc_entry s = s\<lparr> proc_entry := False \<rparr>"

definition atomic_inc :: "32 word \<Rightarrow> 32 word" where
  "atomic_inc v = v + 1"

definition atomic_read :: "32 word \<Rightarrow> 32 word" where
  "atomic_read v = v"

text \<open>The \<open>%d\<close> conversion: decimal digits, a minus sign before a negative value.\<close>

fun dec_digits :: "nat \<Rightarrow> string" where
  "dec_digits n =
     (if n < 10 then [char_of (48 + n)]
      else dec_digits (n div 10) @ [char_of (48 + n mod 10)])"

definition fmt_d :: "int \<Rightarrow> string" where
  "fmt_d i = (if i < 0 then CHR ''-'' # dec_digits (nat (- i)) else dec_digits (nat i))"

text \<open>\<open>seq_printf(m, "IRQ %d: %d\n", a, b)\<close> appends to the buffer of the seq_file.\<close>

definition seq_printf_irq :: "string \<Rightarrow> 32 word \<Rightarrow> 32 word \<Rightarrow> string" where
  "seq_printf_irq m a b =
     m @ ''IRQ '' @ fmt_d (sint a) @ '': '' @ fmt_d (sint b) @ [CHR 0x0A]"

section \<open>The functions of module.c\<close>

subsection \<open>i2c_controller_detect\<close>

text \<open>
  \<open>i2c_controller_list[i2c_controller_count].irq = v\<close>: a store into the array of
  \<open>I2C_CONTROLLER_MAX\<close> slots; a store at any other index is recorded in \<open>oob_write\<close>.
\<close>

definition store_irq :: "32 word \<Rightarrow> kstate \<Rightarrow> kstate" where
  "store_irq v s =
     (let n = i2c_controller_count s in
      if n < I2C_CONTROLLER_MAX
      then s\<lparr> i2c_controller_list :=
                (i2c_controller_list s)[n := (i2c_controller_list s ! n)\<lparr> irq := v \<rparr>] \<rparr>
      else s\<lparr> oob_write := True \<rparr>)"

text \<open>The four case labels of the switch on \<open>dev->device\<close>.\<close>

definition kvadra_device :: "16 word \<Rightarrow> bool" where
  "kvadra_device d = (d = 0x51e8 \<or> d = 0x51e9 \<or> d = 0x51c5 \<or> d = 0x51c6)"

text \<open>
  The while loop; \<open>dev # rest\<close> is the cursor \<open>dev\<close> and the devices after it. The
  result is the return value and the state; the messages of \<open>pr_info\<close> are left out.
\<close>

function detect_loop :: "pci_dev list \<Rightarrow> kstate \<Rightarrow> int \<times> kstate" where
  "detect_loop [] s = (0, s)"
| "detect_loop (dev # rest) s =
     (if kvadra_device (device dev) then
        (let s1 = store_irq (pci_irq dev) s;
             s2 = s1\<lparr> i2c_controller_count := i2c_controller_count s1 + 1 \<rparr>
         in if i2c_controller_count s2 = I2C_CONTROLLER_MAX then (- ENOBUFS, s2)
            else detect_loop (pci_get_device PCI_VENDOR_ID_INTEL rest) s2)
      else detect_loop (pci_get_device PCI_VENDOR_ID_INTEL rest) s)"
  by pat_completeness auto
termination
  by (relation "measure (\<lambda>(ds, s). length ds)")
     (auto simp: pci_get_device_def intro: le_imp_less_Suc length_dropWhile_le)

definition i2c_controller_detect :: "platform \<Rightarrow> kstate \<Rightarrow> int \<times> kstate" where
  "i2c_controller_detect e s =
     detect_loop (pci_get_device PCI_VENDOR_ID_INTEL (pci_devices e)) s"

subsection \<open>irq_handler\<close>

text \<open>
  \<open>irq_handler(int, void *p)\<close>: \<open>p\<close> points at a controller record. A cookie that is
  not a slot of the array is a store out of bounds.
\<close>

definition irq_handler :: "32 word \<Rightarrow> nat \<Rightarrow> kstate \<Rightarrow> irqreturn_t \<times> kstate" where
  "irq_handler l p s =
     (IRQ_HANDLED,
      if p < I2C_CONTROLLER_MAX
      then s\<lparr> i2c_controller_list :=
                (i2c_controller_list s)
                  [p := (i2c_controller_list s ! p)
                          \<lparr> isr_count := atomic_inc (isr_count (i2c_controller_list s ! p)) \<rparr>] \<rparr>
      else s\<lparr> oob_write := True \<rparr>)"

subsection \<open>release_interrupts\<close>

function release_loop :: "nat \<Rightarrow> kstate \<Rightarrow> kstate" where
  "release_loop i s =
     (if i < i2c_controller_count s
      then release_loop (Suc i) (free_irq (irq (i2c_controller_list s ! i)) i s)
      else s)"
  by pat_completeness auto
termination
  by (relation "measure (\<lambda>(i, s). i2c_controller_count s - i)")
     (auto simp: free_irq_def)

text \<open>The parameter \<open>count\<close> is not read by the body: the loop runs to \<open>i2c_controller_count\<close>.\<close>

definition release_interrupts :: "nat \<Rightarrow> kstate \<Rightarrow> kstate" where
  "release_interrupts count s = release_loop 0 s"

subsection \<open>hook_interrupts\<close>

function hook_loop :: "platform \<Rightarrow> nat \<Rightarrow> kstate \<Rightarrow> int \<times> kstate" where
  "hook_loop e i s =
     (if i < i2c_controller_count s then
        (case request_irq e (irq (i2c_controller_list s ! i)) i s of
           (rc, s1) \<Rightarrow>
             if rc < 0 then (rc, release_interrupts i s1)
             else hook_loop e (Suc i) s1)
      else (0, s))"
  by pat_completeness auto
termination
  by (relation "measure (\<lambda>(e, i, s). i2c_controller_count s - i)")
     (auto simp: request_irq_def split: if_splits)

definition hook_interrupts :: "platform \<Rightarrow> kstate \<Rightarrow> int \<times> kstate" where
  "hook_interrupts e s = hook_loop e 0 s"

subsection \<open>proc_show\<close>

function proc_show_loop :: "nat \<Rightarrow> string \<Rightarrow> kstate \<Rightarrow> string \<times> kstate" where
  "proc_show_loop i m s =
     (if i < i2c_controller_count s
      then proc_show_loop (Suc i)
             (seq_printf_irq m (irq (i2c_controller_list s ! i))
                (atomic_read (isr_count (i2c_controller_list s ! i)))) s
      else (m, s))"
  by pat_completeness auto
termination
  by (relation "measure (\<lambda>(i, m, s). i2c_controller_count s - i)") auto

definition proc_show :: "string \<Rightarrow> kstate \<Rightarrow> int \<times> string \<times> kstate" where
  "proc_show m s = (case proc_show_loop 0 m s of (m1, s1) \<Rightarrow> (0, m1, s1))"

subsection \<open>mod_init and mod_exit\<close>

definition mod_init :: "platform \<Rightarrow> kstate \<Rightarrow> int \<times> kstate" where
  "mod_init e s =
     (case i2c_controller_detect e s of
        (rc, s1) \<Rightarrow>
          if rc < 0 then (rc, s1)
          else (case proc_create_single e s1 of
                  (ent, s2) \<Rightarrow>
                    if \<not> ent then (- ENOENT, s2)
                    else (case hook_interrupts e s2 of
                            (rc2, s3) \<Rightarrow>
                              if rc2 < 0 then (rc2, remove_proc_entry s3)
                              else (0, s3))))"

definition mod_exit :: "kstate \<Rightarrow> kstate" where
  "mod_exit s = remove_proc_entry (release_interrupts (i2c_controller_count s) s)"

section \<open>Specification-side definitions and example inputs\<close>

text \<open>
  One append of the loop of \<open>i2c_controller_detect\<close>: the store of the line and the
  increment of the count. \<open>fill\<close> is a run of appends.
\<close>

definition append_record :: "32 word \<Rightarrow> kstate \<Rightarrow> kstate" where
  "append_record v s =
     (store_irq v s)\<lparr> i2c_controller_count := i2c_controller_count (store_irq v s) + 1 \<rparr>"

definition fill :: "32 word list \<Rightarrow> kstate \<Rightarrow> kstate" where
  "fill vs s = fold append_record vs s"

text \<open>
  The devices of a catalog that the claims call matching: the target vendor and one of
  the four device identifiers, in catalog order.
\<close>

definition kvadra_controllers :: "pci_dev list \<Rightarrow> pci_dev list" where
  "kvadra_controllers ds =
     filter (\<lambda>d. vendor d = PCI_VENDOR_ID_INTEL \<and> kvadra_device (device d)) ds"

text \<open>
  The registration that \<open>hook_interrupts\<close> requests for entry \<open>i\<close> (its line and the
  pointer to it), and the registrations of all live entries in registry order.
\<close>

definition cookie :: "kstate \<Rightarrow> nat \<Rightarrow> 32 word \<times> nat" where
  "cookie s i = (irq (i2c_controller_list s ! i), i)"

definition registry_cookies :: "kstate \<Rightarrow> (32 word \<times> nat) list" where
  "registry_cookies s = map (cookie s) [0..<i2c_controller_count s]"

text \<open>
  The structure of the registry is the same in two states: the live length, the size of
  the array and the line of every slot.
\<close>

definition registry_frozen :: "kstate \<Rightarrow> kstate \<Rightarrow> bool" where
  "registry_frozen s s' =
     (i2c_controller_count s' = i2c_controller_count s \<and>
      length (i2c_controller_list s') = length (i2c_controller_list s) \<and>
      map irq (i2c_controller_list s') = map irq (i2c_controller_list s))"

text \<open>
  The report line of one record as the specification words it, and the number of lines
  of a text.
\<close>

definition render_line :: "i2c_controller \<Rightarrow> string" where
  "render_line c =
     ''IRQ '' @ fmt_d (sint (irq c)) @ '': '' @ fmt_d (sint (isr_count c)) @ [CHR 0x0A]"

definition count_lines :: "string \<Rightarrow> nat" where
  "count_lines m = length (filter (\<lambda>c. c = CHR 0x0A) m)"

text \<open>
  Example inputs. \<open>example_platform\<close>: four matching controllers (two of them on the
  shared line 5) among devices with another identifier or vendor; every registration is
  granted. \<open>refusing_platform\<close>: the same, with \<open>request_irq\<close> refused (errno 16) for
  the entry of index 1. \<open>full_platform\<close>: exactly 16 matching controllers.
  \<open>report_example\<close>: a registry of two records, (line 5, count 3) and (line 9, count 0).
\<close>

definition intel_dev :: "16 word \<Rightarrow> 32 word \<Rightarrow> pci_dev" where
  "intel_dev d l = \<lparr> vendor = PCI_VENDOR_ID_INTEL, device = d, pci_irq = l \<rparr>"

definition example_platform :: platform where
  "example_platform =
     \<lparr> pci_devices =
         [intel_dev 0x51e8 5, intel_dev 0x1234 7,
          \<lparr> vendor = 0x1022, device = 0x51e8, pci_irq = 8 \<rparr>,
          intel_dev 0x51c5 9, intel_dev 0x51c6 11, intel_dev 0x51e9 5],
       proc_create_fails = False,
       request_irq_errno = (\<lambda>l d. 0) \<rparr>"

definition refusing_platform :: platform where
  "refusing_platform =
     example_platform\<lparr> request_irq_errno := (\<lambda>l d. if d = 1 then 16 else 0) \<rparr>"

definition full_platform :: platform where
  "full_platform =
     example_platform\<lparr> pci_devices := map (\<lambda>i. intel_dev 0x51e8 (of_nat i)) [0..<16] \<rparr>"

definition report_example :: kstate where
  "report_example =
     init_state\<lparr> i2c_controller_list :=
                   [\<lparr> irq = 5, isr_count = 3 \<rparr>, \<lparr> irq = 9, isr_count = 0 \<rparr>] @
                   replicate 14 \<lparr> irq = 0, isr_count = 0 \<rparr>,
                 i2c_controller_count := 2 \<rparr>"

section \<open>Discovery: the loop as a run of appends\<close>

lemma fill_Nil [simp]: "fill [] s = s"
  by (simp add: fill_def)

lemma fill_Cons [simp]: "fill (v # vs) s = fill vs (append_record v s)"
  by (simp add: fill_def)

lemma append_record_count [simp]:
  "i2c_controller_count (append_record v s) = Suc (i2c_controller_count s)"
  by (simp add: append_record_def store_irq_def Let_def)

lemma detect_loop_fill:
  "i2c_controller_count s < I2C_CONTROLLER_MAX \<Longrightarrow>
   detect_loop (pci_get_device PCI_VENDOR_ID_INTEL ds) s =
     (if i2c_controller_count s + length (kvadra_controllers ds) < I2C_CONTROLLER_MAX
      then (0, fill (map pci_irq (kvadra_controllers ds)) s)
      else (- ENOBUFS,
            fill (take (I2C_CONTROLLER_MAX - i2c_controller_count s)
                    (map pci_irq (kvadra_controllers ds))) s))"
proof (induction ds arbitrary: s)
  case Nil
  then show ?case by (simp add: pci_get_device_def kvadra_controllers_def)
next
  case (Cons d ds)
  show ?case
  proof (cases "vendor d = PCI_VENDOR_ID_INTEL")
    case False
    then have "pci_get_device PCI_VENDOR_ID_INTEL (d # ds) = pci_get_device PCI_VENDOR_ID_INTEL ds"
      by (simp add: pci_get_device_def)
    moreover from False have "kvadra_controllers (d # ds) = kvadra_controllers ds"
      by (simp add: kvadra_controllers_def)
    ultimately show ?thesis using Cons by simp
  next
    case True
    then have cur: "pci_get_device PCI_VENDOR_ID_INTEL (d # ds) = d # ds"
      by (simp add: pci_get_device_def)
    show ?thesis
    proof (cases "kvadra_device (device d)")
      case False
      with True have "kvadra_controllers (d # ds) = kvadra_controllers ds"
        by (simp add: kvadra_controllers_def)
      with False cur Cons show ?thesis by simp
    next
      case kv: True
      with True have ms: "kvadra_controllers (d # ds) = d # kvadra_controllers ds"
        by (simp add: kvadra_controllers_def)
      let ?s2 = "append_record (pci_irq d) s"
      have step: "detect_loop (d # ds) s =
          (if i2c_controller_count ?s2 = I2C_CONTROLLER_MAX then (- ENOBUFS, ?s2)
           else detect_loop (pci_get_device PCI_VENDOR_ID_INTEL ds) ?s2)"
        using kv by (simp add: append_record_def Let_def)
      show ?thesis
      proof (cases "i2c_controller_count ?s2 = I2C_CONTROLLER_MAX")
        case full: True
        then have "I2C_CONTROLLER_MAX - i2c_controller_count s = Suc 0"
          by simp
        with full show ?thesis
          by (simp add: cur step ms del: detect_loop.simps)
      next
        case room: False
        with Cons.prems have lt: "i2c_controller_count ?s2 < I2C_CONTROLLER_MAX"
          by simp
        have tk: "take (I2C_CONTROLLER_MAX - i2c_controller_count s)
                    (pci_irq d # map pci_irq (kvadra_controllers ds)) =
                  pci_irq d # take (I2C_CONTROLLER_MAX - i2c_controller_count ?s2)
                    (map pci_irq (kvadra_controllers ds))"
          using Cons.prems by (simp add: take_Cons')
        show ?thesis
          using room Cons.IH [OF lt] tk
          by (simp add: cur step ms del: detect_loop.simps)
      qed
    qed
  qed
qed

lemma map_update_same: "(map f xs)[n := f (xs ! n)] = map f xs"
  by (metis list_update_id map_update)

lemma append_record_frame [simp]:
  "irq_actions (append_record v s) = irq_actions s"
  "irq_free_calls (append_record v s) = irq_free_calls s"
  "irq_warned (append_record v s) = irq_warned s"
  "proc_entry (append_record v s) = proc_entry s"
  "length (i2c_controller_list (append_record v s)) = length (i2c_controller_list s)"
  by (simp_all add: append_record_def store_irq_def Let_def)

lemma append_record_isr_count [simp]:
  "map isr_count (i2c_controller_list (append_record v s)) =
   map isr_count (i2c_controller_list s)"
  by (simp add: append_record_def store_irq_def Let_def map_update map_update_same)

lemma append_record_oob:
  "i2c_controller_count s < I2C_CONTROLLER_MAX \<Longrightarrow>
   oob_write (append_record v s) = oob_write s"
  by (simp add: append_record_def store_irq_def Let_def)

lemma append_record_irqs:
  assumes "i2c_controller_count s < I2C_CONTROLLER_MAX"
    and "length (i2c_controller_list s) = I2C_CONTROLLER_MAX"
  shows "map irq (take (Suc (i2c_controller_count s)) (i2c_controller_list (append_record v s))) =
         map irq (take (i2c_controller_count s) (i2c_controller_list s)) @ [v]"
  using assms
  by (simp add: append_record_def store_irq_def Let_def take_Suc_conv_app_nth)

lemma fill_frame [simp]:
  "irq_actions (fill vs s) = irq_actions s"
  "irq_free_calls (fill vs s) = irq_free_calls s"
  "irq_warned (fill vs s) = irq_warned s"
  "proc_entry (fill vs s) = proc_entry s"
  "length (i2c_controller_list (fill vs s)) = length (i2c_controller_list s)"
  "i2c_controller_count (fill vs s) = i2c_controller_count s + length vs"
  "map isr_count (i2c_controller_list (fill vs s)) = map isr_count (i2c_controller_list s)"
  by (induction vs arbitrary: s; simp)+

lemma fill_oob:
  "i2c_controller_count s + length vs \<le> I2C_CONTROLLER_MAX \<Longrightarrow>
   oob_write (fill vs s) = oob_write s"
  by (induction vs arbitrary: s) (simp_all add: append_record_oob)

lemma fill_irqs:
  "i2c_controller_count s + length vs \<le> I2C_CONTROLLER_MAX \<Longrightarrow>
   length (i2c_controller_list s) = I2C_CONTROLLER_MAX \<Longrightarrow>
   map irq (take (i2c_controller_count s + length vs) (i2c_controller_list (fill vs s))) =
   map irq (take (i2c_controller_count s) (i2c_controller_list s)) @ vs"
proof (induction vs arbitrary: s)
  case Nil
  then show ?case by simp
next
  case (Cons v vs)
  let ?s1 = "append_record v s"
  from Cons.prems have lt: "i2c_controller_count s < I2C_CONTROLLER_MAX"
    by simp
  have "map irq (take (i2c_controller_count ?s1 + length vs) (i2c_controller_list (fill vs ?s1))) =
        map irq (take (i2c_controller_count ?s1) (i2c_controller_list ?s1)) @ vs"
    using Cons.prems by (intro Cons.IH) simp_all
  then show ?case
    using append_record_irqs [OF lt, of v] Cons.prems(2) by simp
qed

section \<open>Releasing and hooking interrupts\<close>

declare release_loop.simps [simp del]
declare hook_loop.simps [simp del]
declare proc_show_loop.simps [simp del]

lemma free_irq_frame [simp]:
  "i2c_controller_list (free_irq l d s) = i2c_controller_list s"
  "i2c_controller_count (free_irq l d s) = i2c_controller_count s"
  "oob_write (free_irq l d s) = oob_write s"
  "proc_entry (free_irq l d s) = proc_entry s"
  "irq_free_calls (free_irq l d s) = irq_free_calls s @ [(l, d)]"
  by (simp_all add: free_irq_def)

lemma free_irq_actions [simp]:
  "irq_actions (free_irq l d s) = remove1 (l, d) (irq_actions s)"
  by (simp add: free_irq_def remove1_idem)

lemma cookie_free_irq [simp]: "cookie (free_irq l d s) = cookie s"
  by (rule ext) (simp add: cookie_def)

lemma release_loop_frame:
  "i2c_controller_list (release_loop i s) = i2c_controller_list s \<and>
   i2c_controller_count (release_loop i s) = i2c_controller_count s \<and>
   oob_write (release_loop i s) = oob_write s \<and>
   proc_entry (release_loop i s) = proc_entry s"
proof (induction i s rule: release_loop.induct)
  case (1 i s)
  show ?case
  proof (cases "i < i2c_controller_count s")
    case True
    with "1" show ?thesis by (subst (1 2 3 4) release_loop.simps) simp
  next
    case False
    then show ?thesis by (subst (1 2 3 4) release_loop.simps) simp
  qed
qed

lemma release_loop_calls:
  "irq_free_calls (release_loop i s) =
   irq_free_calls s @ map (cookie s) [i..<i2c_controller_count s]"
proof (induction i s rule: release_loop.induct)
  case (1 i s)
  show ?case
  proof (cases "i < i2c_controller_count s")
    case True
    with "1" show ?thesis
      by (subst release_loop.simps) (simp add: upt_conv_Cons cookie_def)
  next
    case False
    then show ?thesis by (subst release_loop.simps) simp
  qed
qed

lemma release_loop_actions:
  "irq_actions (release_loop i s) =
   fold remove1 (map (cookie s) [i..<i2c_controller_count s]) (irq_actions s)"
proof (induction i s rule: release_loop.induct)
  case (1 i s)
  show ?case
  proof (cases "i < i2c_controller_count s")
    case True
    with "1" show ?thesis
      by (subst release_loop.simps) (simp add: upt_conv_Cons cookie_def [symmetric])
  next
    case False
    then show ?thesis by (subst release_loop.simps) simp
  qed
qed

lemma release_loop_held:
  "irq_actions s = map (cookie s) [i..<i2c_controller_count s] \<Longrightarrow>
   irq_warned (release_loop i s) = irq_warned s"
proof (induction i s rule: release_loop.induct)
  case (1 i s)
  show ?case
  proof (cases "i < i2c_controller_count s")
    case True
    let ?s1 = "free_irq (irq (i2c_controller_list s ! i)) i s"
    from True "1.prems" have act: "irq_actions s = cookie s i # map (cookie s) [Suc i..<i2c_controller_count s]"
      by (simp add: upt_conv_Cons)
    then have "irq_actions ?s1 = map (cookie ?s1) [Suc i..<i2c_controller_count ?s1]"
      by (simp add: cookie_def)
    with True "1.IH" have "irq_warned (release_loop (Suc i) ?s1) = irq_warned ?s1"
      by simp
    moreover have "irq_warned ?s1 = irq_warned s"
      using act by (simp add: free_irq_def cookie_def)
    ultimately show ?thesis
      using True by (subst release_loop.simps) simp
  next
    case False
    then show ?thesis by (subst release_loop.simps) simp
  qed
qed

lemma fold_remove1_Nil: "fold remove1 ys [] = []"
  by (induction ys) simp_all

lemma fold_remove1_prefix: "fold remove1 (xs @ ys) xs = []"
  by (induction xs) (simp_all add: fold_remove1_Nil)

lemma cookie_actions_update [simp]: "cookie (s\<lparr> irq_actions := a \<rparr>) = cookie s"
  by (rule ext) (simp add: cookie_def)

lemma hook_loop_unfold:
  "hook_loop e i s =
     (if i < i2c_controller_count s then
        (if request_irq_errno e (irq (i2c_controller_list s ! i)) i = 0
         then hook_loop e (Suc i) (s\<lparr> irq_actions := irq_actions s @ [cookie s i] \<rparr>)
         else (- int (request_irq_errno e (irq (i2c_controller_list s ! i)) i),
               release_loop 0 s))
      else (0, s))"
  by (subst hook_loop.simps) (simp add: request_irq_def release_interrupts_def cookie_def)

lemma hook_loop_induct [case_names step]:
  assumes "\<And>e i s. (i < i2c_controller_count s \<Longrightarrow>
                    request_irq_errno (e :: platform) (irq (i2c_controller_list s ! i)) i = 0 \<Longrightarrow>
                    P e (Suc i) (s\<lparr> irq_actions := irq_actions s @ [cookie s i] \<rparr>)) \<Longrightarrow> P e i s"
  shows "P e i s"
proof (induction e i s rule: hook_loop.induct)
  case (1 e i s)
  show ?case
  proof (rule assms)
    assume lt: "i < i2c_controller_count s"
      and "request_irq_errno e (irq (i2c_controller_list s ! i)) i = 0"
    then have "request_irq e (irq (i2c_controller_list s ! i)) i s =
               (0, s\<lparr> irq_actions := irq_actions s @ [cookie s i] \<rparr>)"
      by (simp add: request_irq_def cookie_def)
    from "1" [OF lt this [symmetric]]
    show "P e (Suc i) (s\<lparr> irq_actions := irq_actions s @ [cookie s i] \<rparr>)"
      by simp
  qed
qed

lemma hook_loop_frame:
  "i2c_controller_list (snd (hook_loop e i s)) = i2c_controller_list s \<and>
   i2c_controller_count (snd (hook_loop e i s)) = i2c_controller_count s \<and>
   oob_write (snd (hook_loop e i s)) = oob_write s \<and>
   proc_entry (snd (hook_loop e i s)) = proc_entry s"
proof (induction e i s rule: hook_loop_induct)
  case (step e i s)
  then show ?case
    by (subst (1 2 3 4) hook_loop_unfold) (simp add: release_loop_frame)
qed

lemma hook_loop_rc: "fst (hook_loop e i s) \<le> 0"
proof (induction e i s rule: hook_loop_induct)
  case (step e i s)
  then show ?case by (subst hook_loop_unfold) simp
qed

lemma hook_loop_fail:
  "irq_actions s = map (cookie s) [0..<i] \<Longrightarrow> i \<le> i2c_controller_count s \<Longrightarrow>
   fst (hook_loop e i s) < 0 \<Longrightarrow>
   irq_actions (snd (hook_loop e i s)) = [] \<and>
   irq_free_calls (snd (hook_loop e i s)) = irq_free_calls s @ registry_cookies s"
proof (induction e i s rule: hook_loop_induct)
  case (step e i s)
  show ?case
  proof (cases "i < i2c_controller_count s")
    case False
    then have "hook_loop e i s = (0, s)"
      by (subst hook_loop_unfold) simp
    with step.prems(3) show ?thesis by simp
  next
    case lt: True
    show ?thesis
    proof (cases "request_irq_errno e (irq (i2c_controller_list s ! i)) i = 0")
      case True
      let ?s1 = "s\<lparr> irq_actions := irq_actions s @ [cookie s i] \<rparr>"
      have "irq_actions (snd (hook_loop e (Suc i) ?s1)) = [] \<and>
            irq_free_calls (snd (hook_loop e (Suc i) ?s1)) = irq_free_calls ?s1 @ registry_cookies ?s1"
        using lt True step.prems
        by (intro step.IH) (simp_all add: hook_loop_unfold [of e i s])
      then show ?thesis
        using lt True by (simp add: hook_loop_unfold [of e i s] registry_cookies_def)
    next
      case False
      have "[0..<i2c_controller_count s] = [0..<i] @ [i..<i2c_controller_count s]"
        using lt by (metis le_add_diff_inverse less_imp_le_nat upt_add_eq_append zero_le)
      then have "fold remove1 (map (cookie s) [0..<i2c_controller_count s]) (irq_actions s) =
                 fold remove1 (map (cookie s) [0..<i] @ map (cookie s) [i..<i2c_controller_count s])
                   (map (cookie s) [0..<i])"
        using step.prems(1) by (metis map_append)
      also have "\<dots> = []"
        by (rule fold_remove1_prefix)
      finally show ?thesis
        using lt False
        by (simp add: hook_loop_unfold [of e i s] release_loop_actions release_loop_calls
            registry_cookies_def)
    qed
  qed
qed

lemma hook_loop_ok:
  "irq_actions s = map (cookie s) [0..<i] \<Longrightarrow> i \<le> i2c_controller_count s \<Longrightarrow>
   fst (hook_loop e i s) = 0 \<Longrightarrow>
   irq_actions (snd (hook_loop e i s)) = registry_cookies s \<and>
   irq_free_calls (snd (hook_loop e i s)) = irq_free_calls s \<and>
   irq_warned (snd (hook_loop e i s)) = irq_warned s"
proof (induction e i s rule: hook_loop_induct)
  case (step e i s)
  show ?case
  proof (cases "i < i2c_controller_count s")
    case False
    then have "hook_loop e i s = (0, s)"
      by (subst hook_loop_unfold) simp
    moreover from False step.prems(2) have "i = i2c_controller_count s"
      by simp
    ultimately show ?thesis
      using step.prems(1) by (simp add: registry_cookies_def)
  next
    case lt: True
    show ?thesis
    proof (cases "request_irq_errno e (irq (i2c_controller_list s ! i)) i = 0")
      case True
      let ?s1 = "s\<lparr> irq_actions := irq_actions s @ [cookie s i] \<rparr>"
      have "irq_actions (snd (hook_loop e (Suc i) ?s1)) = registry_cookies ?s1 \<and>
            irq_free_calls (snd (hook_loop e (Suc i) ?s1)) = irq_free_calls ?s1 \<and>
            irq_warned (snd (hook_loop e (Suc i) ?s1)) = irq_warned ?s1"
        using lt True step.prems
        by (intro step.IH) (simp_all add: hook_loop_unfold [of e i s])
      then show ?thesis
        using lt True by (simp add: hook_loop_unfold [of e i s] registry_cookies_def)
    next
      case False
      with lt step.prems(3) show ?thesis
        by (simp add: hook_loop_unfold [of e i s])
    qed
  qed
qed

section \<open>The report\<close>

lemma digit_not_newline: "k < 10 \<Longrightarrow> char_of (48 + k :: nat) \<noteq> CHR 0x0A"
proof
  assume "k < 10" and "char_of (48 + k) = CHR 0x0A"
  then have "(of_char (char_of (48 + k)) :: nat) = of_char (CHR 0x0A)"
    by simp
  with \<open>k < 10\<close> show False by simp
qed

lemma dec_digits_no_newline: "CHR 0x0A \<notin> set (dec_digits n)"
proof (induction n rule: dec_digits.induct)
  case (1 n)
  show ?case
  proof (cases "n < 10")
    case True
    then show ?thesis using digit_not_newline [of n] by (subst dec_digits.simps) auto
  next
    case False
    have "n mod 10 < 10" by simp
    with False "1" show ?thesis
      using digit_not_newline [of "n mod 10"] by (subst dec_digits.simps) auto
  qed
qed

lemma fmt_d_no_newline: "CHR 0x0A \<notin> set (fmt_d i)"
  by (simp add: fmt_d_def dec_digits_no_newline del: dec_digits.simps)

lemma count_lines_render_line: "count_lines (render_line c) = 1"
proof -
  have "filter (\<lambda>c. c = CHR 0x0A) (fmt_d i) = []" for i
    using fmt_d_no_newline [of i] by (auto simp: filter_empty_conv)
  then show ?thesis
    by (simp add: count_lines_def render_line_def)
qed

lemma count_lines_concat:
  "count_lines (concat (map render_line cs)) = length cs"
proof (induction cs)
  case Nil
  show ?case by (simp add: count_lines_def)
next
  case (Cons c cs)
  have "count_lines (render_line c @ concat (map render_line cs)) =
        count_lines (render_line c) + count_lines (concat (map render_line cs))"
    by (simp add: count_lines_def)
  with Cons show ?case by (simp add: count_lines_render_line)
qed

lemma proc_show_loop_render:
  "i \<le> i2c_controller_count s \<Longrightarrow>
   i2c_controller_count s \<le> length (i2c_controller_list s) \<Longrightarrow>
   proc_show_loop i m s =
     (m @ concat (map render_line
                    (drop i (take (i2c_controller_count s) (i2c_controller_list s)))), s)"
proof (induction i m s rule: proc_show_loop.induct)
  case (1 i m s)
  let ?cs = "take (i2c_controller_count s) (i2c_controller_list s)"
  show ?case
  proof (cases "i < i2c_controller_count s")
    case True
    with "1.prems" have "i < length ?cs" by simp
    then have "drop i ?cs = ?cs ! i # drop (Suc i) ?cs"
      by (rule Cons_nth_drop_Suc [symmetric])
    moreover have "?cs ! i = i2c_controller_list s ! i"
      using True by simp
    ultimately have dr: "drop i ?cs = i2c_controller_list s ! i # drop (Suc i) ?cs"
      by (simp only:)
    have "proc_show_loop (Suc i)
            (seq_printf_irq m (irq (i2c_controller_list s ! i))
               (atomic_read (isr_count (i2c_controller_list s ! i)))) s =
          (seq_printf_irq m (irq (i2c_controller_list s ! i))
               (atomic_read (isr_count (i2c_controller_list s ! i))) @
           concat (map render_line (drop (Suc i) ?cs)), s)"
      using True "1.prems" by (intro "1.IH") simp_all
    then show ?thesis
      using True
      by (subst proc_show_loop.simps)
         (simp add: dr seq_printf_irq_def render_line_def atomic_read_def)
  next
    case False
    with "1.prems" show ?thesis
      by (subst proc_show_loop.simps) simp
  qed
qed

section \<open>What discovery leaves untouched\<close>

lemma detect_loop_frame:
  "irq_actions (snd (detect_loop ds s)) = irq_actions s \<and>
   irq_free_calls (snd (detect_loop ds s)) = irq_free_calls s \<and>
   irq_warned (snd (detect_loop ds s)) = irq_warned s \<and>
   proc_entry (snd (detect_loop ds s)) = proc_entry s \<and>
   map isr_count (i2c_controller_list (snd (detect_loop ds s))) =
     map isr_count (i2c_controller_list s)"
proof (induction ds s rule: detect_loop.induct)
  case (1 s)
  show ?case by simp
next
  case (2 dev rest s)
  let ?s2 = "append_record (pci_irq dev) s"
  show ?case
  proof (cases "kvadra_device (device dev)")
    case False
    with "2.IH"(2) show ?thesis by simp
  next
    case kv: True
    have step: "detect_loop (dev # rest) s =
        (if i2c_controller_count ?s2 = I2C_CONTROLLER_MAX then (- ENOBUFS, ?s2)
         else detect_loop (pci_get_device PCI_VENDOR_ID_INTEL rest) ?s2)"
      using kv by (simp add: append_record_def Let_def)
    show ?thesis
    proof (cases "i2c_controller_count ?s2 = I2C_CONTROLLER_MAX")
      case True
      then show ?thesis by (simp add: step del: detect_loop.simps)
    next
      case False
      then have ne: "i2c_controller_count
                   ((store_irq (pci_irq dev) s)
                      \<lparr> i2c_controller_count := i2c_controller_count (store_irq (pci_irq dev) s) + 1 \<rparr>)
                 \<noteq> I2C_CONTROLLER_MAX"
        by (simp add: append_record_def)
      have "irq_actions (snd (detect_loop (pci_get_device PCI_VENDOR_ID_INTEL rest) ?s2)) =
              irq_actions ?s2 \<and>
            irq_free_calls (snd (detect_loop (pci_get_device PCI_VENDOR_ID_INTEL rest) ?s2)) =
              irq_free_calls ?s2 \<and>
            irq_warned (snd (detect_loop (pci_get_device PCI_VENDOR_ID_INTEL rest) ?s2)) =
              irq_warned ?s2 \<and>
            proc_entry (snd (detect_loop (pci_get_device PCI_VENDOR_ID_INTEL rest) ?s2)) =
              proc_entry ?s2 \<and>
            map isr_count
              (i2c_controller_list (snd (detect_loop (pci_get_device PCI_VENDOR_ID_INTEL rest) ?s2))) =
              map isr_count (i2c_controller_list ?s2)"
        unfolding append_record_def by (rule "2.IH"(1) [OF kv refl refl ne])
      with False show ?thesis
        by (simp add: step del: detect_loop.simps)
    qed
  qed
qed

lemma detect_init:
  "i2c_controller_detect e init_state =
     (if length (kvadra_controllers (pci_devices e)) < I2C_CONTROLLER_MAX
      then (0, fill (map pci_irq (kvadra_controllers (pci_devices e))) init_state)
      else (- ENOBUFS,
            fill (take I2C_CONTROLLER_MAX (map pci_irq (kvadra_controllers (pci_devices e))))
              init_state))"
proof -
  have "i2c_controller_count init_state < I2C_CONTROLLER_MAX"
    by (simp add: init_state_def I2C_CONTROLLER_MAX_def)
  from detect_loop_fill [OF this, of "pci_devices e"] show ?thesis
    by (simp add: i2c_controller_detect_def init_state_def)
qed

lemma init_state_fields [simp]:
  "i2c_controller_count init_state = 0"
  "length (i2c_controller_list init_state) = I2C_CONTROLLER_MAX"
  "irq_actions init_state = []"
  "irq_free_calls init_state = []"
  "irq_warned init_state = []"
  "\<not> proc_entry init_state"
  "\<not> oob_write init_state"
  "map isr_count (i2c_controller_list init_state) = replicate I2C_CONTROLLER_MAX 0"
  by (simp_all add: init_state_def)

section \<open>Properties of discovery\<close>

text \<open>
  Claim C4. When \<open>i2c_controller_detect\<close> succeeds on the freshly loaded module, the
  live part of the registry holds exactly the catalog devices whose vendor is the target
  vendor and whose device identifier is one of the four listed ones: as many records as
  there are such devices, in catalog order, duplicates kept, each record's \<open>irq\<close> being
  that device's interrupt line unchanged. Devices that do not match add no record.
\<close>

theorem detect_registry_is_matching_devices:
  assumes "fst (i2c_controller_detect e init_state) = 0"
  shows "i2c_controller_count (snd (i2c_controller_detect e init_state)) =
           length (kvadra_controllers (pci_devices e)) \<and>
         map irq (take (i2c_controller_count (snd (i2c_controller_detect e init_state)))
                   (i2c_controller_list (snd (i2c_controller_detect e init_state)))) =
           map pci_irq (kvadra_controllers (pci_devices e))"
proof -
  let ?vs = "map pci_irq (kvadra_controllers (pci_devices e))"
  have lt: "length (kvadra_controllers (pci_devices e)) < I2C_CONTROLLER_MAX"
    using assms by (simp add: detect_init ENOBUFS_def split: if_splits)
  then have res: "snd (i2c_controller_detect e init_state) = fill ?vs init_state"
    by (simp add: detect_init)
  have "map irq (take (i2c_controller_count init_state + length ?vs)
                   (i2c_controller_list (fill ?vs init_state))) =
        map irq (take (i2c_controller_count init_state) (i2c_controller_list init_state)) @ ?vs"
    using lt by (intro fill_irqs) simp_all
  then show ?thesis
    by (simp add: res)
qed

theorem detect_registry_is_matching_devices_witness:
  "fst (i2c_controller_detect example_platform init_state) = 0 \<and>
   (i2c_controller_count (snd (i2c_controller_detect example_platform init_state)) =
           length (kvadra_controllers (pci_devices example_platform)) \<and>
    map irq (take (i2c_controller_count (snd (i2c_controller_detect example_platform init_state)))
                   (i2c_controller_list (snd (i2c_controller_detect example_platform init_state)))) =
           map pci_irq (kvadra_controllers (pci_devices example_platform))) \<and>
   map pci_irq (kvadra_controllers (pci_devices example_platform)) = [5, 9, 11, 5]"
proof (intro conjI)
  show h: "fst (i2c_controller_detect example_platform init_state) = 0"
    by code_simp
  from detect_registry_is_matching_devices [OF h]
  show "i2c_controller_count (snd (i2c_controller_detect example_platform init_state)) =
           length (kvadra_controllers (pci_devices example_platform))"
    and "map irq (take (i2c_controller_count (snd (i2c_controller_detect example_platform init_state)))
                   (i2c_controller_list (snd (i2c_controller_detect example_platform init_state)))) =
           map pci_irq (kvadra_controllers (pci_devices example_platform))"
    by blast+
  show "map pci_irq (kvadra_controllers (pci_devices example_platform)) = [5, 9, 11, 5]"
    by code_simp
qed

text \<open>
  Claim C2. The claim asks that a catalog with exactly 16 matching devices be discovered
  successfully. The code stores the sixteenth record inside the array and then returns
  \<open>-ENOBUFS\<close>, because it compares the count with \<open>I2C_CONTROLLER_MAX\<close> after the
  increment: \<open>full_platform\<close> has exactly 16 matching devices, no store leaves the
  array, and discovery fails.
\<close>

theorem detect_sixteen_controllers_refused:
  "length (kvadra_controllers (pci_devices full_platform)) = 16 \<and>
   fst (i2c_controller_detect full_platform init_state) = - ENOBUFS \<and>
   i2c_controller_count (snd (i2c_controller_detect full_platform init_state)) = 16 \<and>
   \<not> oob_write (snd (i2c_controller_detect full_platform init_state))"
  by code_simp

text \<open>
  Claim C10. \<open>i2c_controller_detect\<close> writes only the \<open>irq\<close> field: the counters of
  all slots are what they were before the call. Started on the zero-initialised storage
  of a fresh load, a successful discovery therefore leaves every record with a counter
  that reads 0.
\<close>

theorem detect_leaves_counters_zero:
  "map isr_count (i2c_controller_list (snd (i2c_controller_detect e s))) =
     map isr_count (i2c_controller_list s) \<and>
   (fst (i2c_controller_detect e init_state) = 0 \<longrightarrow>
      (\<forall>c \<in> set (i2c_controller_list (snd (i2c_controller_detect e init_state))).
         atomic_read (isr_count c) = 0))"
proof
  show "map isr_count (i2c_controller_list (snd (i2c_controller_detect e s))) =
        map isr_count (i2c_controller_list s)"
    by (simp add: i2c_controller_detect_def detect_loop_frame)
  have "map isr_count (i2c_controller_list (snd (i2c_controller_detect e init_state))) =
        replicate I2C_CONTROLLER_MAX 0"
    by (simp add: i2c_controller_detect_def detect_loop_frame)
  then have "\<forall>x \<in> set (map isr_count
                        (i2c_controller_list (snd (i2c_controller_detect e init_state)))). x = 0"
    by simp
  then show "fst (i2c_controller_detect e init_state) = 0 \<longrightarrow>
      (\<forall>c \<in> set (i2c_controller_list (snd (i2c_controller_detect e init_state))).
         atomic_read (isr_count c) = 0)"
    by (auto simp: atomic_read_def)
qed

theorem detect_leaves_counters_zero_witness:
  "fst (i2c_controller_detect example_platform init_state) = 0 \<and>
   i2c_controller_list (snd (i2c_controller_detect example_platform init_state)) ! 0
     \<in> set (i2c_controller_list (snd (i2c_controller_detect example_platform init_state))) \<and>
   atomic_read
     (isr_count (i2c_controller_list (snd (i2c_controller_detect example_platform init_state)) ! 0))
     = 0"
proof -
  have h: "fst (i2c_controller_detect example_platform init_state) = 0"
    by code_simp
  have "0 < length (i2c_controller_list (snd (i2c_controller_detect example_platform init_state)))"
    by code_simp
  then have m: "i2c_controller_list (snd (i2c_controller_detect example_platform init_state)) ! 0
      \<in> set (i2c_controller_list (snd (i2c_controller_detect example_platform init_state)))"
    by (rule nth_mem)
  from detect_leaves_counters_zero [of example_platform init_state] h m show ?thesis
    by blast
qed

section \<open>Load and unload\<close>

lemma proc_show_loop_state: "snd (proc_show_loop i m s) = s"
proof (induction i m s rule: proc_show_loop.induct)
  case (1 i m s)
  then show ?case by (subst proc_show_loop.simps) simp
qed

lemma distinct_registry_cookies: "distinct (registry_cookies s)"
proof -
  have "inj_on (cookie s) A" for A
    by (rule inj_onI) (simp add: cookie_def)
  then show ?thesis
    by (simp add: registry_cookies_def distinct_map)
qed

lemma detect_frame:
  "irq_actions (snd (i2c_controller_detect e s)) = irq_actions s"
  "irq_free_calls (snd (i2c_controller_detect e s)) = irq_free_calls s"
  "irq_warned (snd (i2c_controller_detect e s)) = irq_warned s"
  "proc_entry (snd (i2c_controller_detect e s)) = proc_entry s"
  by (simp_all add: i2c_controller_detect_def detect_loop_frame)

lemma hook_interrupts_fail:
  assumes "irq_actions s = []" and "fst (hook_interrupts e s) < 0"
  shows "irq_actions (snd (hook_interrupts e s)) = []"
    and "irq_free_calls (snd (hook_interrupts e s)) = irq_free_calls s @ registry_cookies s"
  using hook_loop_fail [of s 0 e] assms by (simp_all add: hook_interrupts_def)

lemma hook_interrupts_ok:
  assumes "irq_actions s = []" and "fst (hook_interrupts e s) = 0"
  shows "irq_actions (snd (hook_interrupts e s)) = registry_cookies s"
    and "irq_free_calls (snd (hook_interrupts e s)) = irq_free_calls s"
    and "irq_warned (snd (hook_interrupts e s)) = irq_warned s"
  using hook_loop_ok [of s 0 e] assms by (simp_all add: hook_interrupts_def)

lemma hook_interrupts_frame:
  "i2c_controller_list (snd (hook_interrupts e s)) = i2c_controller_list s"
  "i2c_controller_count (snd (hook_interrupts e s)) = i2c_controller_count s"
  "oob_write (snd (hook_interrupts e s)) = oob_write s"
  "proc_entry (snd (hook_interrupts e s)) = proc_entry s"
  by (simp_all add: hook_interrupts_def hook_loop_frame)

lemma registry_cookies_cong:
  "i2c_controller_list s' = i2c_controller_list s \<Longrightarrow>
   i2c_controller_count s' = i2c_controller_count s \<Longrightarrow>
   registry_cookies s' = registry_cookies s"
  by (simp add: registry_cookies_def cookie_def)

lemma mod_init_cases:
  "mod_init e s =
     (let r1 = i2c_controller_detect e s in
      if fst r1 < 0 then r1
      else if proc_create_fails e then (- ENOENT, snd r1)
      else let r3 = hook_interrupts e ((snd r1)\<lparr> proc_entry := True \<rparr>) in
           if fst r3 < 0 then (fst r3, (snd r3)\<lparr> proc_entry := False \<rparr>) else (0, snd r3))"
  by (simp add: mod_init_def proc_create_single_def remove_proc_entry_def Let_def
      split: prod.splits)

text \<open>
  Claim C5. Started with nothing held, a \<open>mod_init\<close> that returns a failure leaves nothing
  held, whichever step failed (discovery, creation of the /proc entry, or hooking the
  interrupts): no interrupt registration of the module remains and the /proc entry does
  not exist.
\<close>

theorem mod_init_failure_holds_nothing:
  assumes "irq_actions s = []" and "\<not> proc_entry s" and "fst (mod_init e s) < 0"
  shows "irq_actions (snd (mod_init e s)) = [] \<and> \<not> proc_entry (snd (mod_init e s))"
proof -
  let ?r1 = "i2c_controller_detect e s"
  let ?s2 = "(snd ?r1)\<lparr> proc_entry := True \<rparr>"
  let ?r3 = "hook_interrupts e ?s2"
  show ?thesis
  proof (cases "fst ?r1 < 0")
    case True
    then have "mod_init e s = ?r1"
      by (simp add: mod_init_cases)
    with assms(1,2) show ?thesis by (simp add: detect_frame)
  next
    case ok1: False
    show ?thesis
    proof (cases "proc_create_fails e")
      case True
      with ok1 have "mod_init e s = (- ENOENT, snd ?r1)"
        by (simp add: mod_init_cases)
      with assms(1,2) show ?thesis by (simp add: detect_frame)
    next
      case ok2: False
      have rc: "fst ?r3 \<le> 0"
        by (simp add: hook_interrupts_def hook_loop_rc)
      from ok1 ok2 have mi: "mod_init e s =
          (if fst ?r3 < 0 then (fst ?r3, (snd ?r3)\<lparr> proc_entry := False \<rparr>) else (0, snd ?r3))"
        by (simp add: mod_init_cases Let_def)
      with assms(3) have fail: "fst ?r3 < 0"
        by (simp split: if_splits)
      have "irq_actions ?s2 = []"
        using assms(1) by (simp add: detect_frame)
      from hook_interrupts_fail(1) [OF this fail] mi fail show ?thesis
        by simp
    qed
  qed
qed

theorem mod_init_failure_holds_nothing_witness:
  "irq_actions init_state = [] \<and> \<not> proc_entry init_state \<and>
   fst (mod_init refusing_platform init_state) < 0 \<and>
   (irq_actions (snd (mod_init refusing_platform init_state)) = [] \<and>
    \<not> proc_entry (snd (mod_init refusing_platform init_state)))"
proof (intro conjI)
  show h1: "irq_actions init_state = []" by simp
  show h2: "\<not> proc_entry init_state" by simp
  show h3: "fst (mod_init refusing_platform init_state) < 0" by code_simp
  from mod_init_failure_holds_nothing [OF h1 h2 h3]
  show "irq_actions (snd (mod_init refusing_platform init_state)) = []"
    and "\<not> proc_entry (snd (mod_init refusing_platform init_state))"
    by blast+
qed

lemma mod_init_ok:
  assumes "irq_actions s = []" and "fst (mod_init e s) = 0"
  shows "irq_actions (snd (mod_init e s)) = registry_cookies (snd (mod_init e s))"
    and "irq_free_calls (snd (mod_init e s)) = irq_free_calls s"
    and "irq_warned (snd (mod_init e s)) = irq_warned s"
    and "proc_entry (snd (mod_init e s))"
proof -
  let ?r1 = "i2c_controller_detect e s"
  let ?s2 = "(snd ?r1)\<lparr> proc_entry := True \<rparr>"
  let ?r3 = "hook_interrupts e ?s2"
  have ne: "- ENOENT \<noteq> 0" by (simp add: ENOENT_def)
  from assms(2) ne have c: "\<not> fst ?r1 < 0" "\<not> proc_create_fails e" "\<not> fst ?r3 < 0"
    by (auto simp: mod_init_cases Let_def split: if_splits)
  then have mi: "mod_init e s = (0, snd ?r3)"
    by (simp add: mod_init_cases Let_def)
  have rc: "fst ?r3 \<le> 0"
    by (simp add: hook_interrupts_def hook_loop_rc)
  with c(3) have ok: "fst ?r3 = 0" by simp
  have a: "irq_actions ?s2 = []"
    using assms(1) by (simp add: detect_frame)
  have "registry_cookies (snd ?r3) = registry_cookies ?s2"
    by (rule registry_cookies_cong) (simp_all add: hook_interrupts_frame)
  with hook_interrupts_ok [OF a ok]
  show "irq_actions (snd (mod_init e s)) = registry_cookies (snd (mod_init e s))"
    and "irq_free_calls (snd (mod_init e s)) = irq_free_calls s"
    and "irq_warned (snd (mod_init e s)) = irq_warned s"
    and "proc_entry (snd (mod_init e s))"
    by (simp_all add: mi detect_frame hook_interrupts_frame)
qed

lemma release_all_held:
  assumes "irq_actions s = registry_cookies s"
  shows "irq_actions (release_interrupts n s) = []"
    and "irq_free_calls (release_interrupts n s) = irq_free_calls s @ registry_cookies s"
    and "irq_warned (release_interrupts n s) = irq_warned s"
proof -
  show "irq_actions (release_interrupts n s) = []"
    using assms fold_remove1_prefix [of "registry_cookies s" "[]"]
    by (simp add: release_interrupts_def release_loop_actions registry_cookies_def)
  show "irq_free_calls (release_interrupts n s) = irq_free_calls s @ registry_cookies s"
    by (simp add: release_interrupts_def release_loop_calls registry_cookies_def)
  show "irq_warned (release_interrupts n s) = irq_warned s"
    using assms by (simp add: release_interrupts_def release_loop_held registry_cookies_def)
qed

text \<open>
  Claim C3, as amended. \<open>release_interrupts\<close> on an empty registry changes nothing. In
  the sequence the module runs, one \<open>mod_exit\<close> after a \<open>mod_init\<close> that succeeded on a
  fresh load, \<open>free_irq\<close> is called exactly once for each registration held, on no other
  line, and nothing remains held. (The code keeps no hook set: \<open>release_interrupts\<close>
  walks the whole registry at every call.)
\<close>

theorem mod_exit_releases_each_held_line_once:
  "(i2c_controller_count s0 = 0 \<longrightarrow> release_interrupts n s0 = s0) \<and>
   (fst (mod_init e init_state) = 0 \<longrightarrow>
      irq_free_calls (mod_exit (snd (mod_init e init_state))) =
        irq_actions (snd (mod_init e init_state)) \<and>
      distinct (irq_free_calls (mod_exit (snd (mod_init e init_state)))) \<and>
      irq_warned (mod_exit (snd (mod_init e init_state))) = [] \<and>
      irq_actions (mod_exit (snd (mod_init e init_state))) = [] \<and>
      \<not> proc_entry (mod_exit (snd (mod_init e init_state))))"
proof (intro conjI impI)
  assume "i2c_controller_count s0 = 0"
  then show "release_interrupts n s0 = s0"
    by (simp add: release_interrupts_def release_loop.simps [of 0 s0])
next
  assume ok: "fst (mod_init e init_state) = 0"
  let ?s = "snd (mod_init e init_state)"
  have a: "irq_actions init_state = []" by simp
  note mi = mod_init_ok [OF a ok]
  note rel = release_all_held [OF mi(1), of "i2c_controller_count ?s"]
  show "irq_free_calls (mod_exit ?s) = irq_actions ?s"
    using rel(2) mi(1,2) by (simp add: mod_exit_def remove_proc_entry_def)
  then show "distinct (irq_free_calls (mod_exit ?s))"
    using mi(1) by (simp add: distinct_registry_cookies)
  show "irq_warned (mod_exit ?s) = []"
    using rel(3) mi(3) by (simp add: mod_exit_def remove_proc_entry_def)
  show "irq_actions (mod_exit ?s) = []"
    using rel(1) by (simp add: mod_exit_def remove_proc_entry_def)
  show "\<not> proc_entry (mod_exit ?s)"
    by (simp add: mod_exit_def remove_proc_entry_def)
qed

theorem mod_exit_releases_each_held_line_once_witness:
  "i2c_controller_count init_state = 0 \<and>
   release_interrupts 0 init_state = init_state \<and>
   fst (mod_init example_platform init_state) = 0 \<and>
   irq_free_calls (mod_exit (snd (mod_init example_platform init_state))) =
     irq_actions (snd (mod_init example_platform init_state)) \<and>
   irq_warned (mod_exit (snd (mod_init example_platform init_state))) = [] \<and>
   irq_actions (mod_exit (snd (mod_init example_platform init_state))) = [] \<and>
   irq_actions (snd (mod_init example_platform init_state)) = [(5, 0), (9, 1), (11, 2), (5, 3)]"
proof -
  have h1: "i2c_controller_count init_state = 0" by simp
  have h2: "fst (mod_init example_platform init_state) = 0" by code_simp
  have v: "irq_actions (snd (mod_init example_platform init_state)) =
           [(5, 0), (9, 1), (11, 2), (5, 3)]"
    by code_simp
  from mod_exit_releases_each_held_line_once [of init_state 0 example_platform] h1 h2 v
  show ?thesis by blast
qed

text \<open>
  Released twice, or released after a rollback: a second \<open>mod_exit\<close> after a successful
  load calls \<open>free_irq\<close> again for all four lines, none of which is held any more; and
  after the rollback of a failed load, which has emptied the set of registrations, a
  \<open>mod_exit\<close> calls \<open>free_irq\<close> for the four lines once more.
\<close>

theorem mod_exit_twice_counterexample:
  "irq_actions (mod_exit (snd (mod_init example_platform init_state))) = [] \<and>
   irq_free_calls (mod_exit (mod_exit (snd (mod_init example_platform init_state)))) =
     [(5, 0), (9, 1), (11, 2), (5, 3), (5, 0), (9, 1), (11, 2), (5, 3)] \<and>
   irq_warned (mod_exit (mod_exit (snd (mod_init example_platform init_state)))) =
     [(5, 0), (9, 1), (11, 2), (5, 3)] \<and>
   irq_actions (snd (mod_init refusing_platform init_state)) = [] \<and>
   irq_free_calls (snd (mod_init refusing_platform init_state)) =
     [(5, 0), (9, 1), (11, 2), (5, 3)] \<and>
   irq_free_calls (mod_exit (snd (mod_init refusing_platform init_state))) =
     [(5, 0), (9, 1), (11, 2), (5, 3), (5, 0), (9, 1), (11, 2), (5, 3)]"
  by code_simp

text \<open>
  Claim C1. The claim asks that a rollback release exactly the registrations acquired.
  \<open>hook_interrupts\<close> passes the number acquired to \<open>release_interrupts\<close>, which does not
  read it and walks the whole registry. With the registry of \<open>refusing_platform\<close> (lines
  5, 9, 11, 5) and \<open>request_irq\<close> refused at index 1, only the registration of index 0
  was acquired, and \<open>free_irq\<close> is called for all four entries; three of the calls find
  no registration.
\<close>

theorem hook_interrupts_rollback_frees_whole_registry:
  "registry_cookies (snd (i2c_controller_detect refusing_platform init_state)) =
     [(5, 0), (9, 1), (11, 2), (5, 3)] \<and>
   request_irq_errno refusing_platform 5 0 = 0 \<and>
   request_irq_errno refusing_platform 9 1 = 16 \<and>
   fst (hook_interrupts refusing_platform
          (snd (i2c_controller_detect refusing_platform init_state))) = - 16 \<and>
   irq_free_calls (snd (hook_interrupts refusing_platform
          (snd (i2c_controller_detect refusing_platform init_state)))) =
     [(5, 0), (9, 1), (11, 2), (5, 3)] \<and>
   irq_warned (snd (hook_interrupts refusing_platform
          (snd (i2c_controller_detect refusing_platform init_state)))) =
     [(9, 1), (11, 2), (5, 3)]"
  by code_simp

section \<open>The interrupt handler and the report\<close>

text \<open>
  Claim C6. Called with a pointer to a slot of the registry, \<open>irq_handler\<close> returns
  \<open>IRQ_HANDLED\<close>, adds one to that record's counter (a 32-bit \<open>atomic_t\<close>) and changes
  nothing else: not the record's line, no other record, not the count, no registration,
  not the /proc entry; and no store leaves the array.
\<close>

theorem irq_handler_increments_one_counter:
  assumes "p < I2C_CONTROLLER_MAX" and "length (i2c_controller_list s) = I2C_CONTROLLER_MAX"
  shows "fst (irq_handler l p s) = IRQ_HANDLED \<and>
         isr_count (i2c_controller_list (snd (irq_handler l p s)) ! p) =
           isr_count (i2c_controller_list s ! p) + 1 \<and>
         irq (i2c_controller_list (snd (irq_handler l p s)) ! p) =
           irq (i2c_controller_list s ! p) \<and>
         (\<forall>j. j \<noteq> p \<longrightarrow>
            i2c_controller_list (snd (irq_handler l p s)) ! j = i2c_controller_list s ! j) \<and>
         length (i2c_controller_list (snd (irq_handler l p s))) =
           length (i2c_controller_list s) \<and>
         i2c_controller_count (snd (irq_handler l p s)) = i2c_controller_count s \<and>
         oob_write (snd (irq_handler l p s)) = oob_write s \<and>
         irq_actions (snd (irq_handler l p s)) = irq_actions s \<and>
         irq_free_calls (snd (irq_handler l p s)) = irq_free_calls s \<and>
         irq_warned (snd (irq_handler l p s)) = irq_warned s \<and>
         proc_entry (snd (irq_handler l p s)) = proc_entry s"
  using assms by (simp add: irq_handler_def atomic_inc_def)

theorem irq_handler_increments_one_counter_witness:
  "(0::nat) < I2C_CONTROLLER_MAX \<and>
   length (i2c_controller_list report_example) = I2C_CONTROLLER_MAX \<and>
   fst (irq_handler 5 0 report_example) = IRQ_HANDLED \<and>
   isr_count (i2c_controller_list (snd (irq_handler 5 0 report_example)) ! 0) = 4 \<and>
   i2c_controller_list (snd (irq_handler 5 0 report_example)) ! 1 =
     i2c_controller_list report_example ! 1"
proof -
  have h1: "(0::nat) < I2C_CONTROLLER_MAX" by (simp add: I2C_CONTROLLER_MAX_def)
  have h2: "length (i2c_controller_list report_example) = I2C_CONTROLLER_MAX" by code_simp
  have v: "isr_count (i2c_controller_list report_example ! 0) + 1 = 4" by code_simp
  from irq_handler_increments_one_counter [OF h1 h2, of 5] h1 h2 v show ?thesis
    by (metis zero_neq_one)
qed

text \<open>
  Claim C7. \<open>proc_show\<close> returns 0 and appends to the buffer one line for each live
  registry entry, in registry order, each line being \<open>IRQ\<close>, the line number, a colon
  and the counter, both printed by \<open>%d\<close>, and nothing else; it leaves the state, so the
  registry and every counter, as it was.
\<close>

theorem proc_show_renders_registry:
  assumes "i2c_controller_count s \<le> length (i2c_controller_list s)"
  shows "proc_show m s =
           (0, m @ concat (map render_line
                             (take (i2c_controller_count s) (i2c_controller_list s))), s) \<and>
         count_lines (concat (map render_line
                             (take (i2c_controller_count s) (i2c_controller_list s)))) =
           i2c_controller_count s"
proof
  show "proc_show m s =
           (0, m @ concat (map render_line
                             (take (i2c_controller_count s) (i2c_controller_list s))), s)"
    using assms proc_show_loop_render [of 0 s m] by (simp add: proc_show_def)
  show "count_lines (concat (map render_line
                             (take (i2c_controller_count s) (i2c_controller_list s)))) =
           i2c_controller_count s"
    using assms by (simp add: count_lines_concat)
qed

theorem proc_show_renders_registry_witness:
  "i2c_controller_count report_example \<le> length (i2c_controller_list report_example) \<and>
   map (\<lambda>c. (irq c, isr_count c))
     (take (i2c_controller_count report_example) (i2c_controller_list report_example)) =
     [(5, 3), (9, 0)] \<and>
   proc_show [] report_example =
     (0, ''IRQ 5: 3'' @ [CHR 0x0A] @ ''IRQ 9: 0'' @ [CHR 0x0A], report_example)"
proof -
  have h: "i2c_controller_count report_example \<le> length (i2c_controller_list report_example)"
    by code_simp
  have r: "map (\<lambda>c. (irq c, isr_count c))
     (take (i2c_controller_count report_example) (i2c_controller_list report_example)) =
     [(5, 3), (9, 0)]"
    by code_simp
  have v: "concat (map render_line
             (take (i2c_controller_count report_example) (i2c_controller_list report_example))) =
           ''IRQ 5: 3'' @ [CHR 0x0A] @ ''IRQ 9: 0'' @ [CHR 0x0A]"
    by code_simp
  from proc_show_renders_registry [OF h, of "[]"] h r v show ?thesis
    by simp
qed

section \<open>The registry stays within bounds\<close>

lemma detect_bounded:
  assumes "i2c_controller_count s < I2C_CONTROLLER_MAX"
  shows "i2c_controller_count (snd (i2c_controller_detect e s)) \<le> I2C_CONTROLLER_MAX"
    and "oob_write (snd (i2c_controller_detect e s)) = oob_write s"
    and "length (i2c_controller_list (snd (i2c_controller_detect e s))) =
         length (i2c_controller_list s)"
proof -
  let ?vs = "map pci_irq (kvadra_controllers (pci_devices e))"
  let ?k = "I2C_CONTROLLER_MAX - i2c_controller_count s"
  have res: "snd (i2c_controller_detect e s) =
      (if i2c_controller_count s + length ?vs < I2C_CONTROLLER_MAX
       then fill ?vs s else fill (take ?k ?vs) s)"
    using detect_loop_fill [OF assms, of "pci_devices e"]
    by (simp add: i2c_controller_detect_def)
  have le: "i2c_controller_count s + length (take ?k ?vs) \<le> I2C_CONTROLLER_MAX"
    using assms by simp
  show "i2c_controller_count (snd (i2c_controller_detect e s)) \<le> I2C_CONTROLLER_MAX"
    using le by (simp add: res del: length_take)
  show "oob_write (snd (i2c_controller_detect e s)) = oob_write s"
    using fill_oob [OF le] fill_oob [of s ?vs] by (simp add: res)
  show "length (i2c_controller_list (snd (i2c_controller_detect e s))) =
        length (i2c_controller_list s)"
    by (simp add: res)
qed

lemma irq_handler_frozen: "registry_frozen s (snd (irq_handler l p s))"
  by (simp add: registry_frozen_def irq_handler_def map_update map_update_same)

lemma release_interrupts_frozen: "registry_frozen s (release_interrupts n s)"
  by (simp add: registry_frozen_def release_interrupts_def release_loop_frame)

lemma hook_interrupts_frozen: "registry_frozen s (snd (hook_interrupts e s))"
  by (simp add: registry_frozen_def hook_interrupts_frame)

lemma mod_init_bounded:
  "i2c_controller_count (snd (mod_init e init_state)) \<le> I2C_CONTROLLER_MAX \<and>
   \<not> oob_write (snd (mod_init e init_state))"
proof -
  have "i2c_controller_count init_state < I2C_CONTROLLER_MAX"
    by (simp add: I2C_CONTROLLER_MAX_def)
  note d = detect_bounded [OF this, of e]
  then show ?thesis
    by (simp add: mod_init_cases Let_def hook_interrupts_frame)
qed

text \<open>
  Claim C8. The live length never exceeds the capacity of 16 and no store leaves the
  array: \<open>i2c_controller_detect\<close>, started with room in the registry, ends with a count
  of at most 16 and has written inside the 16 slots only (it tests the count after every
  append and stops when the array is full), and so does a whole \<open>mod_init\<close> on a fresh
  load. Every other operation leaves the count and the line of every record as they
  were: \<open>hook_interrupts\<close>, \<open>release_interrupts\<close>, \<open>irq_handler\<close>, \<open>proc_show\<close> and
  \<open>mod_exit\<close>.
\<close>

theorem registry_bounded_then_frozen:
  "(i2c_controller_count s < I2C_CONTROLLER_MAX \<and>
    length (i2c_controller_list s) = I2C_CONTROLLER_MAX \<longrightarrow>
      i2c_controller_count (snd (i2c_controller_detect e s)) \<le> I2C_CONTROLLER_MAX \<and>
      length (i2c_controller_list (snd (i2c_controller_detect e s))) = I2C_CONTROLLER_MAX \<and>
      oob_write (snd (i2c_controller_detect e s)) = oob_write s) \<and>
   i2c_controller_count (snd (mod_init e init_state)) \<le> I2C_CONTROLLER_MAX \<and>
   \<not> oob_write (snd (mod_init e init_state)) \<and>
   registry_frozen s (snd (hook_interrupts e s)) \<and>
   registry_frozen s (release_interrupts n s) \<and>
   registry_frozen s (snd (irq_handler l p s)) \<and>
   registry_frozen s (snd (snd (proc_show m s))) \<and>
   registry_frozen s (mod_exit s)"
proof -
  have "snd (snd (proc_show m s)) = s"
    using proc_show_loop_state [of 0 m s] by (simp add: proc_show_def split: prod.splits)
  then have ps: "registry_frozen s (snd (snd (proc_show m s)))"
    by (simp add: registry_frozen_def)
  have me: "registry_frozen s (mod_exit s)"
    using release_interrupts_frozen [of s "i2c_controller_count s"]
    by (simp add: registry_frozen_def mod_exit_def remove_proc_entry_def)
  show ?thesis
    using detect_bounded [of s e] mod_init_bounded [of e] ps me
      hook_interrupts_frozen [of s e] release_interrupts_frozen [of s n]
      irq_handler_frozen [of s l p]
    by simp
qed

theorem registry_bounded_then_frozen_witness:
  "i2c_controller_count init_state < I2C_CONTROLLER_MAX \<and>
   length (i2c_controller_list init_state) = I2C_CONTROLLER_MAX \<and>
   i2c_controller_count (snd (i2c_controller_detect full_platform init_state))
     \<le> I2C_CONTROLLER_MAX \<and>
   oob_write (snd (i2c_controller_detect full_platform init_state)) = oob_write init_state \<and>
   registry_frozen init_state (snd (irq_handler 5 0 init_state))"
proof -
  have h1: "i2c_controller_count init_state < I2C_CONTROLLER_MAX"
    by (simp add: I2C_CONTROLLER_MAX_def)
  have h2: "length (i2c_controller_list init_state) = I2C_CONTROLLER_MAX"
    by simp
  from registry_bounded_then_frozen [of init_state full_platform 0 5 0 "[]"] h1 h2
  show ?thesis by blast
qed

end
